theory Spec2Isabelle
  imports Main "HOL-Library.Word" "HOL-Library.AList"
begin

section \<open>Data model\<close>

text \<open>
  \<^verbatim>\<open>migrate_objects.py\<close> is a module-level script over two storage clients of a
  third-party SDK and the local working directory. A storage project is an association
  list of buckets in listing order; a bucket has a name, a visibility flag and an
  association list of objects (name, content) in listing order.
\<close>

type_synonym bytes = "8 word list"

type_synonym objects = "(string \<times> bytes) list"

type_synonym project = "(string \<times> bool \<times> objects) list"

text \<open>The two clients of lines 24-25: \<^verbatim>\<open>old_supabase_client\<close> and \<^verbatim>\<open>new_supabase_client\<close>.\<close>

datatype client = Old | New

text \<open>Values bound in the module's global namespace.\<close>

datatype pyval =
    PyNone
  | PyStr string
  | PyModule string
  | PyFunction string
  | PyClient pyval pyval

type_synonym globals = "string \<rightharpoonup> pyval"

text \<open>Exceptions, as values.\<close>

datatype error =
    NameError string
  | AttributeError string
  | StorageException string
  | OSError string

fun str :: "error \<Rightarrow> string" where
  "str (NameError x) = ''name '' @ x @ '' is not defined''"
| "str (AttributeError x) = ''no attribute '' @ x"
| "str (StorageException m) = m"
| "str (OSError m) = m"

text \<open>
  Every call that leaves the script (SDK call or file-system call) is recorded, in
  order, together with whether it returned normally (\<open>True\<close>) or raised (\<open>False\<close>).
\<close>

datatype call =
    CreateClient pyval pyval
  | ListBuckets client
  | ListObjects client string
  | CreateBucket client string bool
  | Download client string string
  | Upload client string string string
  | OpenWrite string
  | WriteFile string
  | OpenRead string
  | PathExists string
  | RemoveFile string

type_synonym event = "call \<times> bool"

text \<open>
  The world the script runs in. \<open>fault\<close> is the environment's choice of transient
  failures (network errors, permission errors): the call made when \<open>k\<close> calls have
  already been recorded raises if \<open>fault k\<close>. \<open>short_write k\<close> is the number of bytes
  that reach the file when the write made at position \<open>k\<close> fails.
\<close>

record world =
  old_project :: project
  new_project :: project
  files :: "string \<rightharpoonup> bytes"
  environ :: "string \<rightharpoonup> string"
  dotenv_file :: "string \<rightharpoonup> string"
  stdout :: "string list"
  trace :: "event list"
  fault :: "nat \<Rightarrow> bool"
  short_write :: "nat \<Rightarrow> nat"

type_synonym 'a io = "world \<Rightarrow> (error + 'a) \<times> world"

definition return_io :: "'a \<Rightarrow> 'a io" where
  "return_io x w = (Inr x, w)"

definition bind_io :: "'a io \<Rightarrow> ('a \<Rightarrow> 'b io) \<Rightarrow> 'b io" where
  "bind_io m f w = (case m w of (Inl e, w') \<Rightarrow> (Inl e, w') | (Inr x, w') \<Rightarrow> f x w')"

text \<open>\<^verbatim>\<open>try: m  except Exception as e: h(e)\<close> for a block whose value is not used.\<close>

definition catch_io :: "unit io \<Rightarrow> (error \<Rightarrow> world \<Rightarrow> world) \<Rightarrow> world \<Rightarrow> world" where
  "catch_io m h w = (case m w of (Inl e, w') \<Rightarrow> h e w' | (Inr u, w') \<Rightarrow> w')"

definition print :: "string \<Rightarrow> world \<Rightarrow> world" where
  "print s w = w\<lparr>stdout := stdout w @ [s]\<rparr>"

definition log_call :: "call \<Rightarrow> bool \<Rightarrow> world \<Rightarrow> world" where
  "log_call c ok w = w\<lparr>trace := trace w @ [(c, ok)]\<rparr>"

definition faulty :: "world \<Rightarrow> bool" where
  "faulty w = fault w (length (trace w))"

definition raised :: "call \<Rightarrow> error \<Rightarrow> 'a io" where
  "raised c e w = (Inl e, log_call c False w)"

definition returned :: "call \<Rightarrow> 'a \<Rightarrow> 'a io" where
  "returned c x w = (Inr x, log_call c True w)"

section \<open>The storage SDK, as the script uses it\<close>

text \<open>
  The SDK is not part of the repository. Its five operations follow the contract the
  script relies on: each may fail transiently, creating an existing bucket fails,
  listing a missing bucket fails, downloading a missing object fails, uploading over an
  existing object fails. \<^verbatim>\<open>upload(path, file)\<close> is given a local path and reads that file.
\<close>

fun project :: "client \<Rightarrow> world \<Rightarrow> project" where
  "project Old w = old_project w"
| "project New w = new_project w"

fun set_project :: "client \<Rightarrow> project \<Rightarrow> world \<Rightarrow> world" where
  "set_project Old p w = w\<lparr>old_project := p\<rparr>"
| "set_project New p w = w\<lparr>new_project := p\<rparr>"

definition list_buckets :: "client \<Rightarrow> (string \<times> bool) list io" where
  "list_buckets c w =
     (if faulty w then raised (ListBuckets c) (StorageException ''request failed'') w
      else returned (ListBuckets c) (map (\<lambda>(b, p, os). (b, p)) (project c w)) w)"

definition list_objects :: "client \<Rightarrow> string \<Rightarrow> string list io" where
  "list_objects c b w =
     (if faulty w then raised (ListObjects c b) (StorageException ''request failed'') w
      else case map_of (project c w) b of
             None \<Rightarrow> raised (ListObjects c b) (StorageException ''Bucket not found'') w
           | Some (p, os) \<Rightarrow> returned (ListObjects c b) (map fst os) w)"

definition create_bucket :: "client \<Rightarrow> string \<Rightarrow> bool \<Rightarrow> unit io" where
  "create_bucket c b p w =
     (if faulty w then raised (CreateBucket c b p) (StorageException ''request failed'') w
      else case map_of (project c w) b of
             Some x \<Rightarrow> raised (CreateBucket c b p) (StorageException ''Bucket already exists'') w
           | None \<Rightarrow> returned (CreateBucket c b p) () (set_project c (project c w @ [(b, p, [])]) w))"

definition download :: "client \<Rightarrow> string \<Rightarrow> string \<Rightarrow> bytes io" where
  "download c b n w =
     (if faulty w then raised (Download c b n) (StorageException ''request failed'') w
      else case map_of (project c w) b of
             None \<Rightarrow> raised (Download c b n) (StorageException ''Bucket not found'') w
           | Some (p, os) \<Rightarrow>
               (case map_of os n of
                  None \<Rightarrow> raised (Download c b n) (StorageException ''Object not found'') w
                | Some bs \<Rightarrow> returned (Download c b n) bs w))"

definition upload :: "client \<Rightarrow> string \<Rightarrow> string \<Rightarrow> string \<Rightarrow> unit io" where
  "upload c b path file w =
     (if faulty w then raised (Upload c b path file) (StorageException ''request failed'') w
      else case files w file of
             None \<Rightarrow> raised (Upload c b path file) (OSError ''No such file or directory'') w
           | Some bs \<Rightarrow>
               (case map_of (project c w) b of
                  None \<Rightarrow> raised (Upload c b path file) (StorageException ''Bucket not found'') w
                | Some (p, os) \<Rightarrow>
                    (case map_of os path of
                       Some x \<Rightarrow>
                         raised (Upload c b path file)
                           (StorageException ''The resource already exists'') w
                     | None \<Rightarrow>
                         returned (Upload c b path file) ()
                           (set_project c
                              (AList.update b (p, AList.update path bs os) (project c w)) w))))"

section \<open>The local working directory\<close>

text \<open>
  \<^verbatim>\<open>open(name, 'wb+')\<close> creates or truncates the file; \<^verbatim>\<open>f.write(res); f.close()\<close> stores
  the bytes; \<^verbatim>\<open>open(name, 'rb+')\<close> needs the file to exist; \<^verbatim>\<open>os.remove\<close> deletes the
  file and needs it to exist. Opening, writing and removing may fail as the environment
  decides. \<^verbatim>\<open>os.path.exists\<close> does not raise.
\<close>

definition open_write :: "string \<Rightarrow> unit io" where
  "open_write n w =
     (if faulty w then raised (OpenWrite n) (OSError ''cannot open for writing'') w
      else returned (OpenWrite n) () (w\<lparr>files := (files w)(n \<mapsto> [])\<rparr>))"

definition write_file :: "string \<Rightarrow> bytes \<Rightarrow> unit io" where
  "write_file n res w =
     (if faulty w
      then raised (WriteFile n) (OSError ''write failed'')
             (w\<lparr>files := (files w)(n \<mapsto> take (short_write w (length (trace w))) res)\<rparr>)
      else returned (WriteFile n) () (w\<lparr>files := (files w)(n \<mapsto> res)\<rparr>))"

definition open_read :: "string \<Rightarrow> unit io" where
  "open_read n w =
     (if faulty w then raised (OpenRead n) (OSError ''cannot open for reading'') w
      else case files w n of
             None \<Rightarrow> raised (OpenRead n) (OSError ''No such file or directory'') w
           | Some bs \<Rightarrow> returned (OpenRead n) () w)"

definition path_exists :: "string \<Rightarrow> bool io" where
  "path_exists n w = returned (PathExists n) (files w n \<noteq> None) w"

definition remove_file :: "string \<Rightarrow> unit io" where
  "remove_file n w =
     (if faulty w then raised (RemoveFile n) (OSError ''cannot remove'') w
      else case files w n of
             None \<Rightarrow> raised (RemoveFile n) (OSError ''No such file or directory'') w
           | Some bs \<Rightarrow> returned (RemoveFile n) () (w\<lparr>files := (files w)(n := None)\<rparr>))"

section \<open>The migration loop (lines 28-52)\<close>

text \<open>The body of the first \<^verbatim>\<open>try\<close> of the object loop (lines 39-42).\<close>

definition download_try :: "string \<Rightarrow> string \<Rightarrow> unit io" where
  "download_try b n =
     bind_io (open_write n) (\<lambda>u.
     bind_io (download Old b n) (\<lambda>res.
     write_file n res))"

text \<open>The body of the second \<^verbatim>\<open>try\<close> (lines 46-50).\<close>

definition upload_try :: "string \<Rightarrow> string \<Rightarrow> unit io" where
  "upload_try b n =
     bind_io (open_read n) (\<lambda>u.
     bind_io (upload New b n n) (\<lambda>u.
     bind_io (path_exists n) (\<lambda>ex.
     if ex then remove_file n else return_io ())))"

text \<open>The two \<^verbatim>\<open>try\<close> statements with their handlers (lines 38-44 and 45-52).\<close>

definition download_block :: "string \<Rightarrow> string \<Rightarrow> world \<Rightarrow> world" where
  "download_block b n = catch_io (download_try b n) (\<lambda>e. print (''error downloading '' @ str e))"

definition upload_block :: "string \<Rightarrow> string \<Rightarrow> world \<Rightarrow> world" where
  "upload_block b n = catch_io (upload_try b n) (\<lambda>e. print (''error uploading | '' @ str e))"

text \<open>One iteration of \<^verbatim>\<open>for obj in objects\<close> (lines 37-52).\<close>

definition process_object :: "string \<Rightarrow> string \<Rightarrow> world \<Rightarrow> world" where
  "process_object b n w = upload_block b n (download_block b n (print n w))"

fun object_loop :: "string \<Rightarrow> string list \<Rightarrow> world \<Rightarrow> world" where
  "object_loop b [] w = w"
| "object_loop b (n # ns) w = object_loop b ns (process_object b n w)"

text \<open>One iteration of \<^verbatim>\<open>for bucket in buckets\<close> (lines 30-52).\<close>

definition process_bucket :: "string \<times> bool \<Rightarrow> unit io" where
  "process_bucket bk w =
     (case list_objects Old (fst bk) (print (''Copying objects from '' @ fst bk) w) of
        (Inl e, w1) \<Rightarrow> (Inl e, w1)
      | (Inr objs, w1) \<Rightarrow>
          (Inr (),
           object_loop (fst bk) objs
             (catch_io (create_bucket New (fst bk) (snd bk))
                (\<lambda>e. print ''unable to create bucket'') w1)))"

fun bucket_loop :: "(string \<times> bool) list \<Rightarrow> unit io" where
  "bucket_loop [] w = (Inr (), w)"
| "bucket_loop (bk # bks) w =
     (case process_bucket bk w of
        (Inl e, w') \<Rightarrow> (Inl e, w')
      | (Inr u, w') \<Rightarrow> bucket_loop bks w')"

definition migrate :: "unit io" where
  "migrate = bind_io (list_buckets Old) bucket_loop"

section \<open>The module prologue (lines 3-25)\<close>

text \<open>A name is resolved in the module's globals; an unbound name raises.\<close>

definition lookup_name :: "globals \<Rightarrow> string \<Rightarrow> pyval io" where
  "lookup_name g x w = (case g x of None \<Rightarrow> (Inl (NameError x), w) | Some v \<Rightarrow> (Inr v, w))"

text \<open>
  \<^verbatim>\<open>from m import x\<close> binds \<open>x\<close>. The packages the script imports (\<^verbatim>\<open>dotenv\<close>,
  \<^verbatim>\<open>supabase\<close>) are taken to be installed, as running the script requires.
\<close>

definition import_from :: "string \<Rightarrow> string \<Rightarrow> globals \<Rightarrow> globals io" where
  "import_from m x g = return_io (g(x \<mapsto> PyFunction x))"

text \<open>\<^verbatim>\<open>import os\<close> binds the standard library module.\<close>

definition import_os :: "globals \<Rightarrow> globals io" where
  "import_os g = return_io (g(''os'' \<mapsto> PyModule ''os''))"

text \<open>
  \<^verbatim>\<open>load_dotenv()\<close>: the name is resolved, then the variables of the settings file that
  the process environment does not have yet are added to it.
\<close>

definition call_load_dotenv :: "globals \<Rightarrow> unit io" where
  "call_load_dotenv g =
     bind_io (lookup_name g ''load_dotenv'') (\<lambda>f w.
       (Inr (), w\<lparr>environ := dotenv_file w ++ environ w\<rparr>))"

text \<open>\<^verbatim>\<open>target = os.getenv(key)\<close>: the name \<^verbatim>\<open>os\<close> is resolved first.\<close>

definition assign_getenv :: "string \<Rightarrow> string \<Rightarrow> globals \<Rightarrow> globals io" where
  "assign_getenv target key g =
     bind_io (lookup_name g ''os'') (\<lambda>m w.
       if m = PyModule ''os''
       then (Inr (g(target \<mapsto> (case environ w key of None \<Rightarrow> PyNone | Some v \<Rightarrow> PyStr v))), w)
       else (Inl (AttributeError ''getenv''), w))"

definition assign_str :: "string \<Rightarrow> string \<Rightarrow> globals \<Rightarrow> globals io" where
  "assign_str target lit g = return_io (g(target \<mapsto> PyStr lit))"

text \<open>\<^verbatim>\<open>target = create_client(url_name, key_name)\<close>.\<close>

definition assign_create_client :: "string \<Rightarrow> string \<Rightarrow> string \<Rightarrow> globals \<Rightarrow> globals io" where
  "assign_create_client target url_name key_name g =
     bind_io (lookup_name g ''create_client'') (\<lambda>f.
     bind_io (lookup_name g url_name) (\<lambda>url.
     bind_io (lookup_name g key_name) (\<lambda>key.
     bind_io (returned (CreateClient url key) ()) (\<lambda>u.
     return_io (g(target \<mapsto> PyClient url key))))))"

definition prologue :: "globals \<Rightarrow> globals io" where
  "prologue g0 =
     bind_io (import_from ''dotenv'' ''load_dotenv'' g0) (\<lambda>g1.
     bind_io (call_load_dotenv g1) (\<lambda>u.
     bind_io (assign_getenv ''foodshare_project_ref'' ''foodshare_project_ref'' g1) (\<lambda>g2.
     bind_io (assign_getenv ''postgres_project_ref'' ''postgres_project_ref'' g2) (\<lambda>g3.
     bind_io (assign_getenv ''foodshare_service_key'' ''foodshare_service_key'' g3) (\<lambda>g4.
     bind_io (assign_getenv ''postgres_service_key'' ''postgres_service_key'' g4) (\<lambda>g5.
     bind_io (assign_str ''OLD_DB_URL'' ''https://foodshare_project_ref.supabase.co'' g5) (\<lambda>g6.
     bind_io (assign_str ''NEW_DB_URL'' ''https://postgres_project_ref.supabase.co'' g6) (\<lambda>g7.
     bind_io (assign_str ''OLD_SERVICE_KEY'' ''foodshare_service_key'' g7) (\<lambda>g8.
     bind_io (assign_str ''NEW_SERVICE_KEY'' ''postgres_service_key'' g8) (\<lambda>g9.
     bind_io (import_from ''supabase'' ''create_client'' g9) (\<lambda>g10.
     bind_io (import_os g10) (\<lambda>g11.
     bind_io (assign_str ''filedata'' [] g11) (\<lambda>g12.
     bind_io (assign_create_client ''old_supabase_client'' ''OLD_DB_URL'' ''OLD_SERVICE_KEY'' g12) (\<lambda>g13.
     assign_create_client ''new_supabase_client'' ''NEW_DB_URL'' ''NEW_SERVICE_KEY'' g13))))))))))))))"

text \<open>The whole script, from a given initial namespace.\<close>

definition script :: "globals \<Rightarrow> unit io" where
  "script g0 = bind_io (prologue g0) (\<lambda>g. migrate)"

text \<open>The namespace of a module run as a program: no \<^verbatim>\<open>os\<close> in it.\<close>

definition initial_globals :: globals where
  "initial_globals =
     map_of [(''__name__'', PyStr ''__main__''), (''__doc__'', PyNone),
             (''__package__'', PyNone), (''__spec__'', PyNone),
             (''__builtins__'', PyModule ''builtins''),
             (''__file__'', PyStr ''migrate_objects.py'')]"

definition main :: "unit io" where
  "main = script initial_globals"

text \<open>The content of object \<open>n\<close> of bucket \<open>b\<close> in a project, if there is one.\<close>

definition object_bytes :: "project \<Rightarrow> string \<Rightarrow> string \<Rightarrow> bytes option" where
  "object_bytes pr b n = (case map_of pr b of None \<Rightarrow> None | Some (p, os) \<Rightarrow> map_of os n)"

text \<open>The calls recorded between two worlds of one run.\<close>

definition new_events :: "world \<Rightarrow> world \<Rightarrow> event list" where
  "new_events w w' = drop (length (trace w)) (trace w')"

definition new_output :: "world \<Rightarrow> world \<Rightarrow> string list" where
  "new_output w w' = drop (length (stdout w)) (stdout w')"

text \<open>The arguments of the client constructions among some recorded calls.\<close>

fun client_args :: "event list \<Rightarrow> (pyval \<times> pyval) list" where
  "client_args [] = []"
| "client_args ((CreateClient url key, ok) # es) = (url, key) # client_args es"
| "client_args (e # es) = client_args es"

text \<open>The calls that change a project: creating a bucket in it, uploading to it.\<close>

fun writes_to :: "client \<Rightarrow> call \<Rightarrow> bool" where
  "writes_to c (CreateBucket c' b p) = (c' = c)"
| "writes_to c (Upload c' b path file) = (c' = c)"
| "writes_to c x = False"

text \<open>
  The calls of one iteration of the object loop: file-system calls, downloads through
  the old client, uploads through the new client.
\<close>

fun object_call :: "call \<Rightarrow> bool" where
  "object_call (OpenWrite n) = True"
| "object_call (WriteFile n) = True"
| "object_call (OpenRead n) = True"
| "object_call (PathExists n) = True"
| "object_call (RemoveFile n) = True"
| "object_call (Download c b n) = (c = Old)"
| "object_call (Upload c b path file) = (c = New)"
| "object_call x = False"

text \<open>
  The calls of the migration loop: those of the object loop, the two listings through
  the old client and bucket creation through the new client.
\<close>

fun migrate_call :: "call \<Rightarrow> bool" where
  "migrate_call (ListBuckets c) = (c = Old)"
| "migrate_call (ListObjects c b) = (c = Old)"
| "migrate_call (CreateBucket c b p) = (c = New)"
| "migrate_call x = object_call x"

text \<open>A listing call (of buckets or of objects) that raised.\<close>

fun failed_listing :: "event \<Rightarrow> bool" where
  "failed_listing (ListBuckets c, ok) = (\<not> ok)"
| "failed_listing (ListObjects c b, ok) = (\<not> ok)"
| "failed_listing ev = False"

text \<open>Whether a call was made (and returned or raised) among some recorded calls.\<close>

definition attempted :: "call \<Rightarrow> event list \<Rightarrow> bool" where
  "attempted c es = ((c, True) \<in> set es \<or> (c, False) \<in> set es)"

section \<open>Example worlds\<close>

text \<open>
  The scenario of the specification: the source project has the public bucket
  \<^verbatim>\<open>photos\<close> with the objects \<^verbatim>\<open>a.jpg\<close> and \<^verbatim>\<open>b.jpg\<close>. The destination project and the
  transient failures are parameters.
\<close>

definition photos :: project where
  "photos = [(''photos'', True, [(''a.jpg'', [1, 2, 3]), (''b.jpg'', [4, 5])])]"

definition example_world :: "project \<Rightarrow> (nat \<Rightarrow> bool) \<Rightarrow> world" where
  "example_world dst f =
     \<lparr>old_project = photos, new_project = dst, files = Map.empty, environ = Map.empty,
      dotenv_file = Map.empty, stdout = [], trace = [], fault = f,
      short_write = (\<lambda>k. 0)\<rparr>"

section \<open>One object: the two try blocks\<close>

lemmas prim_defs = open_write_def write_file_def open_read_def path_exists_def remove_file_def
  download_def upload_def list_objects_def list_buckets_def create_bucket_def
  raised_def returned_def log_call_def faulty_def return_io_def

lemma open_write_cases:
  assumes "open_write n w = (r, w')"
  shows "(\<exists>e. r = Inl e \<and> w' = log_call (OpenWrite n) False w)
       \<or> (r = Inr () \<and> w' = log_call (OpenWrite n) True (w\<lparr>files := (files w)(n \<mapsto> [])\<rparr>))"
  using assms unfolding open_write_def raised_def returned_def
  by (auto split: if_splits)

lemma download_cases:
  assumes "download Old b n w = (r, w')"
  shows "(\<exists>e. r = Inl e \<and> w' = log_call (Download Old b n) False w)
       \<or> (\<exists>bs. r = Inr bs \<and> object_bytes (old_project w) b n = Some bs
             \<and> w' = log_call (Download Old b n) True w)"
  using assms unfolding download_def raised_def returned_def object_bytes_def
  by (auto split: if_splits option.splits)

lemma write_file_cases:
  assumes "write_file n res w = (r, w')"
  shows "(\<exists>e k. r = Inl e
             \<and> w' = log_call (WriteFile n) False (w\<lparr>files := (files w)(n \<mapsto> take k res)\<rparr>))
       \<or> (r = Inr () \<and> w' = log_call (WriteFile n) True (w\<lparr>files := (files w)(n \<mapsto> res)\<rparr>))"
  using assms unfolding write_file_def raised_def returned_def
  by (auto split: if_splits)

lemma open_read_cases:
  assumes "open_read n w = (r, w')"
  shows "(\<exists>e. r = Inl e \<and> w' = log_call (OpenRead n) False w)
       \<or> (\<exists>bs. r = Inr () \<and> files w n = Some bs \<and> w' = log_call (OpenRead n) True w)"
  using assms unfolding open_read_def raised_def returned_def
  by (auto split: if_splits option.splits)

lemma upload_cases:
  assumes "upload New b n n w = (r, w')"
  shows "(\<exists>e. r = Inl e \<and> w' = log_call (Upload New b n n) False w)
       \<or> (\<exists>bs. r = Inr () \<and> files w n = Some bs
             \<and> object_bytes (new_project w') b n = Some bs
             \<and> trace w' = trace w @ [(Upload New b n n, True)]
             \<and> files w' = files w \<and> old_project w' = old_project w \<and> stdout w' = stdout w
             \<and> fault w' = fault w \<and> short_write w' = short_write w
             \<and> environ w' = environ w \<and> dotenv_file w' = dotenv_file w)"
proof (cases "faulty w")
  case True
  then show ?thesis
    using assms by (auto simp add: upload_def raised_def)
next
  case nf: False
  show ?thesis
  proof (cases "files w n")
    case None
    then show ?thesis
      using assms nf by (auto simp add: upload_def raised_def)
  next
    case (Some bs)
    show ?thesis
    proof (cases "map_of (new_project w) b")
      case None
      then show ?thesis
        using assms nf Some by (auto simp add: upload_def raised_def)
    next
      case bucket: (Some x)
      obtain p os where x: "x = (p, os)" by (cases x)
      show ?thesis
      proof (cases "map_of os n")
        case None
        then have "r = Inr ()"
          and "w' = log_call (Upload New b n n) True
                 (w\<lparr>new_project := AList.update b (p, AList.update n bs os) (new_project w)\<rparr>)"
          using assms nf Some bucket x by (simp_all add: upload_def returned_def)
        then show ?thesis
          using Some by (simp add: log_call_def object_bytes_def update_conv')
      next
        case (Some y)
        then show ?thesis
          using assms nf \<open>files w n = Some bs\<close> bucket x by (auto simp add: upload_def raised_def)
      qed
    qed
  qed
qed

lemma remove_file_cases:
  assumes "remove_file n w = (r, w')" and "files w n = Some bs"
  shows "(\<exists>e. r = Inl e \<and> w' = log_call (RemoveFile n) False w)
       \<or> (r = Inr () \<and> w' = log_call (RemoveFile n) True (w\<lparr>files := (files w)(n := None)\<rparr>))"
  using assms unfolding remove_file_def raised_def returned_def
  by (auto split: if_splits)

lemma download_try_cases:
  assumes "download_try b n w = (r, w')"
  shows "old_project w' = old_project w \<and> new_project w' = new_project w \<and>
         stdout w' = stdout w \<and> fault w' = fault w \<and> short_write w' = short_write w \<and>
         environ w' = environ w \<and> dotenv_file w' = dotenv_file w \<and>
    ((\<exists>e. r = Inl e \<and> trace w' = trace w @ [(OpenWrite n, False)] \<and> files w' = files w)
     \<or> (\<exists>e. r = Inl e \<and> trace w' = trace w @ [(OpenWrite n, True), (Download Old b n, False)]
            \<and> files w' = (files w)(n \<mapsto> []))
     \<or> (\<exists>e bs k. r = Inl e \<and> object_bytes (old_project w) b n = Some bs
            \<and> trace w' = trace w @ [(OpenWrite n, True), (Download Old b n, True), (WriteFile n, False)]
            \<and> files w' = (files w)(n \<mapsto> take k bs))
     \<or> (\<exists>bs. r = Inr () \<and> object_bytes (old_project w) b n = Some bs
            \<and> trace w' = trace w @ [(OpenWrite n, True), (Download Old b n, True), (WriteFile n, True)]
            \<and> files w' = (files w)(n \<mapsto> bs)))"
proof -
  obtain r1 w1 where ow: "open_write n w = (r1, w1)"
    by (cases "open_write n w")
  from open_write_cases [OF ow] show ?thesis
  proof (elim disjE exE conjE)
    fix e assume r1: "r1 = Inl e" and w1: "w1 = log_call (OpenWrite n) False w"
    have "r = Inl e" "w' = w1"
      using assms ow r1 by (simp_all add: download_try_def bind_io_def)
    then show ?thesis
      using w1 by (simp add: log_call_def)
  next
    assume r1: "r1 = Inr ()"
      and w1: "w1 = log_call (OpenWrite n) True (w\<lparr>files := (files w)(n \<mapsto> [])\<rparr>)"
    obtain r2 w2 where dl: "download Old b n w1 = (r2, w2)"
      by (cases "download Old b n w1")
    from download_cases [OF dl] show ?thesis
    proof (elim disjE exE conjE)
      fix e assume r2: "r2 = Inl e" and w2: "w2 = log_call (Download Old b n) False w1"
      have "r = Inl e" "w' = w2"
        using assms ow r1 dl r2 by (simp_all add: download_try_def bind_io_def)
      then show ?thesis
        using w1 w2 by (simp add: log_call_def)
    next
      fix bs assume r2: "r2 = Inr bs" and src: "object_bytes (old_project w1) b n = Some bs"
        and w2: "w2 = log_call (Download Old b n) True w1"
      have src': "object_bytes (old_project w) b n = Some bs"
        using src w1 by (simp add: log_call_def)
      obtain r3 w3 where wf: "write_file n bs w2 = (r3, w3)"
        by (cases "write_file n bs w2")
      have fin: "r = r3" "w' = w3"
        using assms ow r1 dl r2 wf by (simp_all add: download_try_def bind_io_def)
      from write_file_cases [OF wf] show ?thesis
      proof (elim disjE exE conjE)
        fix e k assume "r3 = Inl e"
          and "w3 = log_call (WriteFile n) False (w2\<lparr>files := (files w2)(n \<mapsto> take k bs)\<rparr>)"
        then have "r = Inl e \<and> object_bytes (old_project w) b n = Some bs
            \<and> trace w' = trace w @ [(OpenWrite n, True), (Download Old b n, True), (WriteFile n, False)]
            \<and> files w' = (files w)(n \<mapsto> take k bs)"
          and "old_project w' = old_project w \<and> new_project w' = new_project w \<and>
         stdout w' = stdout w \<and> fault w' = fault w \<and> short_write w' = short_write w \<and>
         environ w' = environ w \<and> dotenv_file w' = dotenv_file w"
          using fin w1 w2 src' by (simp_all add: log_call_def)
        then show ?thesis by blast
      next
        assume "r3 = Inr ()"
          and "w3 = log_call (WriteFile n) True (w2\<lparr>files := (files w2)(n \<mapsto> bs)\<rparr>)"
        then show ?thesis
          using fin w1 w2 src' by (simp add: log_call_def)
      qed
    qed
  qed
qed

lemma upload_try_cases:
  assumes "upload_try b n w = (r, w')"
  shows "old_project w' = old_project w \<and>
         stdout w' = stdout w \<and> fault w' = fault w \<and> short_write w' = short_write w \<and>
         environ w' = environ w \<and> dotenv_file w' = dotenv_file w \<and>
    ((\<exists>e. r = Inl e \<and> trace w' = trace w @ [(OpenRead n, False)] \<and> files w' = files w
          \<and> new_project w' = new_project w)
     \<or> (\<exists>e. r = Inl e \<and> trace w' = trace w @ [(OpenRead n, True), (Upload New b n n, False)]
            \<and> files w' = files w \<and> files w n \<noteq> None \<and> new_project w' = new_project w)
     \<or> (\<exists>bs. r = Inr () \<and> files w n = Some bs
            \<and> trace w' = trace w @ [(OpenRead n, True), (Upload New b n n, True), (PathExists n, True), (RemoveFile n, True)]
            \<and> files w' = (files w)(n := None)
            \<and> object_bytes (new_project w') b n = Some bs)
     \<or> (\<exists>e bs. r = Inl e \<and> files w n = Some bs
            \<and> trace w' = trace w @ [(OpenRead n, True), (Upload New b n n, True), (PathExists n, True), (RemoveFile n, False)]
            \<and> files w' = files w
            \<and> object_bytes (new_project w') b n = Some bs))"
proof -
  obtain r1 w1 where op: "open_read n w = (r1, w1)"
    by (cases "open_read n w")
  from open_read_cases [OF op] show ?thesis
  proof (elim disjE exE conjE)
    fix e assume r1: "r1 = Inl e" and w1: "w1 = log_call (OpenRead n) False w"
    have "r = Inl e" "w' = w1"
      using assms op r1 by (simp_all add: upload_try_def bind_io_def)
    then show ?thesis
      using w1 by (simp add: log_call_def)
  next
    fix bs assume r1: "r1 = Inr ()" and f: "files w n = Some bs"
      and w1: "w1 = log_call (OpenRead n) True w"
    obtain r2 w2 where ul: "upload New b n n w1 = (r2, w2)"
      by (cases "upload New b n n w1")
    from upload_cases [OF ul] show ?thesis
    proof (elim disjE exE conjE)
      fix e assume r2: "r2 = Inl e" and w2: "w2 = log_call (Upload New b n n) False w1"
      have "r = Inl e" "w' = w2"
        using assms op r1 ul r2 by (simp_all add: upload_try_def bind_io_def)
      then show ?thesis
        using w1 w2 f by (simp add: log_call_def)
    next
      fix bs' assume r2: "r2 = Inr ()" and f1: "files w1 n = Some bs'"
        and dst: "object_bytes (new_project w2) b n = Some bs'"
        and t2: "trace w2 = trace w1 @ [(Upload New b n n, True)]"
        and fr2: "files w2 = files w1" "old_project w2 = old_project w1" "stdout w2 = stdout w1"
          "fault w2 = fault w1" "short_write w2 = short_write w1"
          "environ w2 = environ w1" "dotenv_file w2 = dotenv_file w1"
      have bs': "bs' = bs"
        using f f1 w1 by (simp add: log_call_def)
      define w3 where "w3 = log_call (PathExists n) True w2"
      have f3: "files w3 n = Some bs"
        using fr2(1) f w1 by (simp add: w3_def log_call_def)
      obtain r4 w4 where rm: "remove_file n w3 = (r4, w4)"
        by (cases "remove_file n w3")
      have fin: "r = r4" "w' = w4"
        using assms op r1 ul r2 rm fr2(1) f w1
        by (simp_all add: upload_try_def bind_io_def path_exists_def returned_def w3_def log_call_def)
      have fr3: "old_project w3 = old_project w" "stdout w3 = stdout w" "fault w3 = fault w"
        "short_write w3 = short_write w" "environ w3 = environ w" "dotenv_file w3 = dotenv_file w"
        "files w3 = files w" "new_project w3 = new_project w2"
        "trace w3 = trace w @ [(OpenRead n, True), (Upload New b n n, True), (PathExists n, True)]"
        using fr2 t2 w1 by (simp_all add: w3_def log_call_def)
      from remove_file_cases [OF rm f3] show ?thesis
      proof (elim disjE exE conjE)
        fix e assume "r4 = Inl e" and "w4 = log_call (RemoveFile n) False w3"
        then have "r = Inl e \<and> files w n = Some bs
            \<and> trace w' = trace w @ [(OpenRead n, True), (Upload New b n n, True), (PathExists n, True), (RemoveFile n, False)]
            \<and> files w' = files w
            \<and> object_bytes (new_project w') b n = Some bs"
          and "old_project w' = old_project w \<and>
         stdout w' = stdout w \<and> fault w' = fault w \<and> short_write w' = short_write w \<and>
         environ w' = environ w \<and> dotenv_file w' = dotenv_file w"
          using fin fr3 f dst bs' by (simp_all add: log_call_def)
        then show ?thesis by blast
      next
        assume "r4 = Inr ()"
          and "w4 = log_call (RemoveFile n) True (w3\<lparr>files := (files w3)(n := None)\<rparr>)"
        then have "r = Inr () \<and> files w n = Some bs
            \<and> trace w' = trace w @ [(OpenRead n, True), (Upload New b n n, True), (PathExists n, True), (RemoveFile n, True)]
            \<and> files w' = (files w)(n := None)
            \<and> object_bytes (new_project w') b n = Some bs"
          and "old_project w' = old_project w \<and>
         stdout w' = stdout w \<and> fault w' = fault w \<and> short_write w' = short_write w \<and>
         environ w' = environ w \<and> dotenv_file w' = dotenv_file w"
          using fin fr3 f dst bs' by (simp_all add: log_call_def)
        then show ?thesis by blast
      qed
    qed
  qed
qed

lemma download_block_cases:
  assumes "w' = download_block b n w"
  shows "old_project w' = old_project w \<and> new_project w' = new_project w \<and>
         fault w' = fault w \<and> short_write w' = short_write w \<and>
         environ w' = environ w \<and> dotenv_file w' = dotenv_file w \<and>
    ((\<exists>e. fst (download_try b n w) = Inl e \<and> stdout w' = stdout w @ [''error downloading '' @ str e]
          \<and> trace w' = trace w @ [(OpenWrite n, False)] \<and> files w' = files w)
     \<or> (\<exists>e. fst (download_try b n w) = Inl e \<and> stdout w' = stdout w @ [''error downloading '' @ str e]
            \<and> trace w' = trace w @ [(OpenWrite n, True), (Download Old b n, False)]
            \<and> files w' = (files w)(n \<mapsto> []))
     \<or> (\<exists>e bs k. fst (download_try b n w) = Inl e \<and> stdout w' = stdout w @ [''error downloading '' @ str e]
            \<and> object_bytes (old_project w) b n = Some bs
            \<and> trace w' = trace w @ [(OpenWrite n, True), (Download Old b n, True), (WriteFile n, False)]
            \<and> files w' = (files w)(n \<mapsto> take k bs))
     \<or> (\<exists>bs. fst (download_try b n w) = Inr () \<and> stdout w' = stdout w
            \<and> object_bytes (old_project w) b n = Some bs
            \<and> trace w' = trace w @ [(OpenWrite n, True), (Download Old b n, True), (WriteFile n, True)]
            \<and> files w' = (files w)(n \<mapsto> bs)))"
proof -
  obtain r w1 where d: "download_try b n w = (r, w1)"
    by (cases "download_try b n w")
  show ?thesis
    using download_try_cases [OF d] assms d
    unfolding download_block_def catch_io_def print_def
    by (elim conjE disjE exE) auto
qed

lemma upload_block_cases:
  assumes "w' = upload_block b n w"
  shows "old_project w' = old_project w \<and>
         fault w' = fault w \<and> short_write w' = short_write w \<and>
         environ w' = environ w \<and> dotenv_file w' = dotenv_file w \<and>
    ((\<exists>e. fst (upload_try b n w) = Inl e \<and> stdout w' = stdout w @ [''error uploading | '' @ str e]
          \<and> trace w' = trace w @ [(OpenRead n, False)] \<and> files w' = files w
          \<and> new_project w' = new_project w)
     \<or> (\<exists>e. fst (upload_try b n w) = Inl e \<and> stdout w' = stdout w @ [''error uploading | '' @ str e]
            \<and> trace w' = trace w @ [(OpenRead n, True), (Upload New b n n, False)]
            \<and> files w' = files w \<and> files w n \<noteq> None \<and> new_project w' = new_project w)
     \<or> (\<exists>bs. fst (upload_try b n w) = Inr () \<and> stdout w' = stdout w \<and> files w n = Some bs
            \<and> trace w' = trace w @ [(OpenRead n, True), (Upload New b n n, True), (PathExists n, True), (RemoveFile n, True)]
            \<and> files w' = (files w)(n := None)
            \<and> object_bytes (new_project w') b n = Some bs)
     \<or> (\<exists>e bs. fst (upload_try b n w) = Inl e \<and> stdout w' = stdout w @ [''error uploading | '' @ str e]
            \<and> files w n = Some bs
            \<and> trace w' = trace w @ [(OpenRead n, True), (Upload New b n n, True), (PathExists n, True), (RemoveFile n, False)]
            \<and> files w' = files w
            \<and> object_bytes (new_project w') b n = Some bs))"
proof -
  obtain r w1 where d: "upload_try b n w = (r, w1)"
    by (cases "upload_try b n w")
  show ?thesis
    using upload_try_cases [OF d] assms d
    unfolding upload_block_def catch_io_def print_def
    by (elim conjE disjE exE) auto
qed

lemmas run_defs = process_object_def download_block_def upload_block_def download_try_def
  upload_try_def catch_io_def bind_io_def print_def new_events_def new_output_def
  example_world_def photos_def object_bytes_def

lemma process_object_split:
  assumes "w1 = download_block b n (print n w)" and "w2 = upload_block b n w1"
  shows "process_object b n w = w2" and "trace (print n w) = trace w"
    and "files (print n w) = files w" and "old_project (print n w) = old_project w"
    and "new_project (print n w) = new_project w" and "stdout (print n w) = stdout w @ [n]"
  using assms by (simp_all add: process_object_def print_def)

section \<open>The loops: calls made and state left alone\<close>

lemma process_object_trace:
  "\<exists>evs. trace (process_object b n w) = trace w @ evs \<and> list_all (\<lambda>ev. object_call (fst ev)) evs
     \<and> attempted (OpenWrite n) evs \<and> attempted (OpenRead n) evs"
proof -
  define w1 where "w1 = download_block b n (print n w)"
  define w2 where "w2 = upload_block b n w1"
  note s = process_object_split [OF w1_def w2_def]
  show ?thesis
    unfolding s(1) attempted_def
    using download_block_cases [OF w1_def] upload_block_cases [OF w2_def] s(2)
    by (elim conjE disjE exE) simp_all
qed

lemma process_object_frame:
  "old_project (process_object b n w) = old_project w \<and> fault (process_object b n w) = fault w
   \<and> short_write (process_object b n w) = short_write w
   \<and> environ (process_object b n w) = environ w \<and> dotenv_file (process_object b n w) = dotenv_file w
   \<and> (\<exists>out. stdout (process_object b n w) = stdout w @ out)"
proof -
  define w1 where "w1 = download_block b n (print n w)"
  define w2 where "w2 = upload_block b n w1"
  note s = process_object_split [OF w1_def w2_def]
  have p: "fault (print n w) = fault w" "short_write (print n w) = short_write w"
    "environ (print n w) = environ w" "dotenv_file (print n w) = dotenv_file w"
    by (simp_all add: print_def)
  show ?thesis
    unfolding s(1)
    using download_block_cases [OF w1_def] upload_block_cases [OF w2_def] s(2-) p
    by (elim conjE disjE exE) simp_all
qed

lemma object_loop_trace:
  "\<exists>evs. trace (object_loop b ns w) = trace w @ evs \<and> list_all (\<lambda>ev. object_call (fst ev)) evs
     \<and> (\<forall>n\<in>set ns. attempted (OpenWrite n) evs \<and> attempted (OpenRead n) evs)"
proof (induction ns arbitrary: w)
  case Nil
  then show ?case by simp
next
  case (Cons n ns)
  obtain e1 where e1: "trace (process_object b n w) = trace w @ e1"
    "list_all (\<lambda>ev. object_call (fst ev)) e1" "attempted (OpenWrite n) e1" "attempted (OpenRead n) e1"
    using process_object_trace by blast
  obtain e2 where e2: "trace (object_loop b ns (process_object b n w)) = trace (process_object b n w) @ e2"
    "list_all (\<lambda>ev. object_call (fst ev)) e2"
    "\<forall>m\<in>set ns. attempted (OpenWrite m) e2 \<and> attempted (OpenRead m) e2"
    using Cons.IH by blast
  have "trace (object_loop b (n # ns) w) = trace w @ (e1 @ e2)"
    using e1(1) e2(1) by simp
  moreover have "list_all (\<lambda>ev. object_call (fst ev)) (e1 @ e2)"
    using e1(2) e2(2) by simp
  moreover have "\<forall>m\<in>set (n # ns). attempted (OpenWrite m) (e1 @ e2) \<and> attempted (OpenRead m) (e1 @ e2)"
    using e1(3,4) e2(3) by (auto simp: attempted_def)
  ultimately show ?case by blast
qed

lemma object_loop_frame:
  "old_project (object_loop b ns w) = old_project w \<and> fault (object_loop b ns w) = fault w
   \<and> short_write (object_loop b ns w) = short_write w
   \<and> environ (object_loop b ns w) = environ w \<and> dotenv_file (object_loop b ns w) = dotenv_file w
   \<and> (\<exists>out. stdout (object_loop b ns w) = stdout w @ out)"
proof (induction ns arbitrary: w)
  case Nil
  then show ?case by simp
next
  case (Cons n ns)
  show ?case
    using Cons.IH [of "process_object b n w"] process_object_frame [of b n w]
    by (elim conjE exE) simp
qed

lemma object_call_migrate: "object_call c \<Longrightarrow> migrate_call c"
  by (cases c) simp_all

lemma object_call_not_listing: "object_call (fst ev) \<Longrightarrow> \<not> failed_listing ev"
  by (cases ev rule: failed_listing.cases) simp_all

lemma list_objects_cases:
  assumes "list_objects Old b w = (r, w')"
  shows "(\<exists>e. r = Inl e \<and> w' = log_call (ListObjects Old b) False w)
       \<or> (\<exists>ns. r = Inr ns \<and> w' = log_call (ListObjects Old b) True w)"
  using assms unfolding list_objects_def raised_def returned_def
  by (auto split: if_splits option.splits)

lemma create_bucket_block_cases:
  assumes "w' = catch_io (create_bucket New b p) (\<lambda>e. print ''unable to create bucket'') w"
  shows "old_project w' = old_project w \<and> fault w' = fault w \<and> short_write w' = short_write w
       \<and> environ w' = environ w \<and> dotenv_file w' = dotenv_file w \<and> files w' = files w
       \<and> ((trace w' = trace w @ [(CreateBucket New b p, True)] \<and> stdout w' = stdout w
            \<and> map_of (new_project w) b = None \<and> new_project w' = new_project w @ [(b, p, [])])
          \<or> (trace w' = trace w @ [(CreateBucket New b p, False)]
            \<and> stdout w' = stdout w @ [''unable to create bucket'']
            \<and> new_project w' = new_project w))"
  using assms unfolding catch_io_def create_bucket_def raised_def returned_def log_call_def
    print_def faulty_def
  by (auto split: if_splits option.splits)

lemma process_bucket_cases:
  assumes "process_bucket (b, p) w = (r, w')"
  shows "old_project w' = old_project w \<and> fault w' = fault w \<and> short_write w' = short_write w
       \<and> environ w' = environ w \<and> dotenv_file w' = dotenv_file w
       \<and> ((\<exists>e. r = Inl e \<and> trace w' = trace w @ [(ListObjects Old b, False)]
               \<and> fst (list_objects Old b (print (''Copying objects from '' @ b) w)) = Inl e
               \<and> new_project w' = new_project w \<and> files w' = files w
               \<and> stdout w' = stdout w @ [''Copying objects from '' @ b])
          \<or> (\<exists>ok ns evs out. r = Inr ()
               \<and> fst (list_objects Old b (print (''Copying objects from '' @ b) w)) = Inr ns
               \<and> trace w' = trace w @ (ListObjects Old b, True) # (CreateBucket New b p, ok) # evs
               \<and> list_all (\<lambda>ev. object_call (fst ev)) evs
               \<and> (\<forall>n\<in>set ns. attempted (OpenWrite n) evs \<and> attempted (OpenRead n) evs)
               \<and> stdout w' = stdout w @ (''Copying objects from '' @ b)
                     # (if ok then [] else [''unable to create bucket'']) @ out))"
proof -
  define w0 where "w0 = print (''Copying objects from '' @ b) w"
  obtain r1 w1 where l: "list_objects Old b w0 = (r1, w1)"
    by (cases "list_objects Old b w0")
  have p0: "old_project w0 = old_project w" "fault w0 = fault w" "short_write w0 = short_write w"
    "environ w0 = environ w" "dotenv_file w0 = dotenv_file w" "trace w0 = trace w"
    "new_project w0 = new_project w" "files w0 = files w"
    "stdout w0 = stdout w @ [''Copying objects from '' @ b]"
    by (simp_all add: w0_def print_def)
  from list_objects_cases [OF l] show ?thesis
  proof (elim disjE exE conjE)
    fix e assume "r1 = Inl e" and w1: "w1 = log_call (ListObjects Old b) False w0"
    then have "r = Inl e" "w' = w1"
      using assms l by (simp_all add: process_bucket_def w0_def)
    then show ?thesis
      using w1 p0 l \<open>r1 = Inl e\<close> by (simp add: log_call_def w0_def)
  next
    fix ns assume r1: "r1 = Inr ns" and w1: "w1 = log_call (ListObjects Old b) True w0"
    define w2 where "w2 = catch_io (create_bucket New b p) (\<lambda>e. print ''unable to create bucket'') w1"
    have r: "r = Inr ()" and w': "w' = object_loop b ns w2"
      using assms l r1 by (simp_all add: process_bucket_def w0_def w2_def)
    have p1: "old_project w1 = old_project w" "fault w1 = fault w" "short_write w1 = short_write w"
      "environ w1 = environ w" "dotenv_file w1 = dotenv_file w"
      "trace w1 = trace w @ [(ListObjects Old b, True)]"
      "stdout w1 = stdout w @ [''Copying objects from '' @ b]"
      using w1 p0 by (simp_all add: log_call_def)
    obtain evs where evs: "trace w' = trace w2 @ evs" "list_all (\<lambda>ev. object_call (fst ev)) evs"
      "\<forall>n\<in>set ns. attempted (OpenWrite n) evs \<and> attempted (OpenRead n) evs"
      using object_loop_trace [of b ns w2] w' by blast
    obtain out where out: "stdout w' = stdout w2 @ out"
      using object_loop_frame [of b ns w2] w' by blast
    have fr: "old_project w' = old_project w2" "fault w' = fault w2" "short_write w' = short_write w2"
      "environ w' = environ w2" "dotenv_file w' = dotenv_file w2"
      using object_loop_frame [of b ns w2] w' by simp_all
    have ll: "fst (list_objects Old b (print (''Copying objects from '' @ b) w)) = Inr ns"
      using l r1 by (simp add: w0_def)
    from create_bucket_block_cases [OF w2_def] show ?thesis
    proof (elim conjE disjE)
      assume "trace w2 = trace w1 @ [(CreateBucket New b p, True)]" "stdout w2 = stdout w1"
        "old_project w2 = old_project w1" "fault w2 = fault w1" "short_write w2 = short_write w1"
        "environ w2 = environ w1" "dotenv_file w2 = dotenv_file w1"
      then have "r = Inr () \<and> fst (list_objects Old b (print (''Copying objects from '' @ b) w)) = Inr ns
               \<and> trace w' = trace w @ (ListObjects Old b, True) # (CreateBucket New b p, True) # evs
               \<and> list_all (\<lambda>ev. object_call (fst ev)) evs
               \<and> (\<forall>n\<in>set ns. attempted (OpenWrite n) evs \<and> attempted (OpenRead n) evs)
               \<and> stdout w' = stdout w @ (''Copying objects from '' @ b)
                     # (if True then [] else [''unable to create bucket'']) @ out"
        and "old_project w' = old_project w \<and> fault w' = fault w \<and> short_write w' = short_write w
       \<and> environ w' = environ w \<and> dotenv_file w' = dotenv_file w"
        using r ll evs out fr p1 by simp_all
      then show ?thesis by blast
    next
      assume "trace w2 = trace w1 @ [(CreateBucket New b p, False)]"
        "stdout w2 = stdout w1 @ [''unable to create bucket'']"
        "old_project w2 = old_project w1" "fault w2 = fault w1" "short_write w2 = short_write w1"
        "environ w2 = environ w1" "dotenv_file w2 = dotenv_file w1"
      then have "r = Inr () \<and> fst (list_objects Old b (print (''Copying objects from '' @ b) w)) = Inr ns
               \<and> trace w' = trace w @ (ListObjects Old b, True) # (CreateBucket New b p, False) # evs
               \<and> list_all (\<lambda>ev. object_call (fst ev)) evs
               \<and> (\<forall>n\<in>set ns. attempted (OpenWrite n) evs \<and> attempted (OpenRead n) evs)
               \<and> stdout w' = stdout w @ (''Copying objects from '' @ b)
                     # (if False then [] else [''unable to create bucket'']) @ out"
        and "old_project w' = old_project w \<and> fault w' = fault w \<and> short_write w' = short_write w
       \<and> environ w' = environ w \<and> dotenv_file w' = dotenv_file w"
        using r ll evs out fr p1 by simp_all
      then show ?thesis by blast
    qed
  qed
qed

lemma bucket_loop_shape:
  assumes "bucket_loop bks w = (r, w')"
  shows "old_project w' = old_project w \<and> fault w' = fault w \<and> short_write w' = short_write w
       \<and> environ w' = environ w \<and> dotenv_file w' = dotenv_file w
       \<and> (\<exists>evs. trace w' = trace w @ evs \<and> list_all (\<lambda>ev. migrate_call (fst ev)) evs
            \<and> ((r = Inr () \<and> list_all (\<lambda>ev. \<not> failed_listing ev) evs)
               \<or> (\<exists>e evs0 b. r = Inl e \<and> evs = evs0 @ [(ListObjects Old b, False)]
                     \<and> list_all (\<lambda>ev. \<not> failed_listing ev) evs0)))"
  using assms
proof (induction bks arbitrary: w)
  case Nil
  then show ?case by simp
next
  case (Cons bk bks)
  obtain b p where bk: "bk = (b, p)" by (cases bk)
  obtain r1 w1 where pb: "process_bucket (b, p) w = (r1, w1)"
    by (cases "process_bucket (b, p) w")
  note pc = process_bucket_cases [OF pb]
  then have fr1: "old_project w1 = old_project w" "fault w1 = fault w"
    "short_write w1 = short_write w" "environ w1 = environ w" "dotenv_file w1 = dotenv_file w"
    by simp_all
  from pc have "(\<exists>e. r1 = Inl e \<and> trace w1 = trace w @ [(ListObjects Old b, False)])
      \<or> (\<exists>ok evs. r1 = Inr () \<and> trace w1 = trace w @ (ListObjects Old b, True) # (CreateBucket New b p, ok) # evs
               \<and> list_all (\<lambda>ev. object_call (fst ev)) evs)"
    by blast
  then show ?case
  proof (elim disjE exE conjE)
    fix e assume r1: "r1 = Inl e" and t: "trace w1 = trace w @ [(ListObjects Old b, False)]"
    then have "r = Inl e" "w' = w1"
      using Cons.prems pb bk by simp_all
    then have "trace w' = trace w @ [(ListObjects Old b, False)]
        \<and> list_all (\<lambda>ev. migrate_call (fst ev)) [(ListObjects Old b, False)]
        \<and> r = Inl e \<and> [(ListObjects Old b, False)] = [] @ [(ListObjects Old b, False)]
        \<and> list_all (\<lambda>ev. \<not> failed_listing ev) []"
      using t by simp
    then show ?thesis using fr1 \<open>w' = w1\<close> by blast
  next
    fix ok evs assume r1: "r1 = Inr ()"
      and t: "trace w1 = trace w @ (ListObjects Old b, True) # (CreateBucket New b p, ok) # evs"
      and oc: "list_all (\<lambda>ev. object_call (fst ev)) evs"
    have rest: "bucket_loop bks w1 = (r, w')"
      using Cons.prems pb bk r1 by simp
    note ih = Cons.IH [OF rest]
    then obtain evs2 where e2: "trace w' = trace w1 @ evs2"
      "list_all (\<lambda>ev. migrate_call (fst ev)) evs2"
      "(r = Inr () \<and> list_all (\<lambda>ev. \<not> failed_listing ev) evs2)
         \<or> (\<exists>e evs0 b. r = Inl e \<and> evs2 = evs0 @ [(ListObjects Old b, False)]
                     \<and> list_all (\<lambda>ev. \<not> failed_listing ev) evs0)"
      by blast
    define pre where "pre = (ListObjects Old b, True) # (CreateBucket New b p, ok) # evs"
    have pm: "list_all (\<lambda>ev. migrate_call (fst ev)) pre"
      using oc by (simp add: pre_def list_all_iff object_call_migrate)
    have pn: "list_all (\<lambda>ev. \<not> failed_listing ev) pre"
      using oc by (simp add: pre_def list_all_iff object_call_not_listing)
    have tr: "trace w' = trace w @ (pre @ evs2)"
      using e2(1) t by (simp add: pre_def)
    have mc: "list_all (\<lambda>ev. migrate_call (fst ev)) (pre @ evs2)"
      using pm e2(2) by simp
    from e2(3) have "(r = Inr () \<and> list_all (\<lambda>ev. \<not> failed_listing ev) (pre @ evs2))
         \<or> (\<exists>e evs0 b. r = Inl e \<and> pre @ evs2 = evs0 @ [(ListObjects Old b, False)]
                     \<and> list_all (\<lambda>ev. \<not> failed_listing ev) evs0)"
    proof (elim disjE exE conjE)
      assume "r = Inr ()" "list_all (\<lambda>ev. \<not> failed_listing ev) evs2"
      then show ?thesis using pn by simp
    next
      fix e evs0 b' assume "r = Inl e" "evs2 = evs0 @ [(ListObjects Old b', False)]"
        "list_all (\<lambda>ev. \<not> failed_listing ev) evs0"
      then have "r = Inl e \<and> pre @ evs2 = (pre @ evs0) @ [(ListObjects Old b', False)]
                     \<and> list_all (\<lambda>ev. \<not> failed_listing ev) (pre @ evs0)"
        using pn by simp
      then show ?thesis by blast
    qed
    then show ?thesis
      using tr mc ih fr1 by auto
  qed
qed

lemma migrate_shape:
  assumes "migrate w = (r, w')"
  shows "old_project w' = old_project w \<and> fault w' = fault w \<and> short_write w' = short_write w
       \<and> environ w' = environ w \<and> dotenv_file w' = dotenv_file w
       \<and> (\<exists>evs. trace w' = trace w @ evs \<and> list_all (\<lambda>ev. migrate_call (fst ev)) evs
            \<and> ((r = Inr () \<and> list_all (\<lambda>ev. \<not> failed_listing ev) evs)
               \<or> (\<exists>e. r = Inl e \<and> evs = [(ListBuckets Old, False)])
               \<or> (\<exists>e evs0 b. r = Inl e \<and> evs = evs0 @ [(ListObjects Old b, False)]
                     \<and> list_all (\<lambda>ev. \<not> failed_listing ev) evs0)))"
proof (cases "faulty w")
  case True
  then have "r = Inl (StorageException ''request failed'')" "w' = log_call (ListBuckets Old) False w"
    using assms by (simp_all add: migrate_def bind_io_def list_buckets_def raised_def)
  then show ?thesis by (simp add: log_call_def)
next
  case False
  define w1 where "w1 = log_call (ListBuckets Old) True w"
  have bl: "bucket_loop (map (\<lambda>(b, p, os). (b, p)) (old_project w)) w1 = (r, w')"
    using assms False by (simp add: migrate_def bind_io_def list_buckets_def returned_def w1_def)
  have fr: "old_project w1 = old_project w" "fault w1 = fault w" "short_write w1 = short_write w"
    "environ w1 = environ w" "dotenv_file w1 = dotenv_file w"
    "trace w1 = trace w @ [(ListBuckets Old, True)]"
    by (simp_all add: w1_def log_call_def)
  from bucket_loop_shape [OF bl] obtain evs where e: "trace w' = trace w1 @ evs"
    "list_all (\<lambda>ev. migrate_call (fst ev)) evs"
    "(r = Inr () \<and> list_all (\<lambda>ev. \<not> failed_listing ev) evs)
       \<or> (\<exists>e evs0 b. r = Inl e \<and> evs = evs0 @ [(ListObjects Old b, False)]
                     \<and> list_all (\<lambda>ev. \<not> failed_listing ev) evs0)"
    by blast
  have tr: "trace w' = trace w @ ((ListBuckets Old, True) # evs)"
    using e(1) fr(6) by simp
  have mc: "list_all (\<lambda>ev. migrate_call (fst ev)) ((ListBuckets Old, True) # evs)"
    using e(2) by simp
  from e(3) have "(r = Inr () \<and> list_all (\<lambda>ev. \<not> failed_listing ev) ((ListBuckets Old, True) # evs))
       \<or> (\<exists>e evs0 b. r = Inl e \<and> (ListBuckets Old, True) # evs = evs0 @ [(ListObjects Old b, False)]
                     \<and> list_all (\<lambda>ev. \<not> failed_listing ev) evs0)"
  proof (elim disjE exE conjE)
    assume "r = Inr ()" "list_all (\<lambda>ev. \<not> failed_listing ev) evs"
    then show ?thesis by simp
  next
    fix e evs0 b assume "r = Inl e" "evs = evs0 @ [(ListObjects Old b, False)]"
      "list_all (\<lambda>ev. \<not> failed_listing ev) evs0"
    then have "r = Inl e \<and> (ListBuckets Old, True) # evs = ((ListBuckets Old, True) # evs0) @ [(ListObjects Old b, False)]
        \<and> list_all (\<lambda>ev. \<not> failed_listing ev) ((ListBuckets Old, True) # evs0)"
      by simp
    then show ?thesis by blast
  qed
  then show ?thesis
    using tr mc bucket_loop_shape [OF bl] fr by auto
qed

section \<open>The claims about one object\<close>




text \<open>
  Claim C5 as stated fails: download, write and upload all succeed, the removal of the
  local file raises, and the file is still in the working directory.
\<close>

theorem successful_transfer_file_kept_counterexample:
  "(Download Old ''photos'' ''a.jpg'', True)
     \<in> set (new_events (example_world [(''photos'', True, [])] (\<lambda>k. k = 6))
         (process_object ''photos'' ''a.jpg'' (example_world [(''photos'', True, [])] (\<lambda>k. k = 6))))
   \<and> (WriteFile ''a.jpg'', True)
     \<in> set (new_events (example_world [(''photos'', True, [])] (\<lambda>k. k = 6))
         (process_object ''photos'' ''a.jpg'' (example_world [(''photos'', True, [])] (\<lambda>k. k = 6))))
   \<and> (Upload New ''photos'' ''a.jpg'' ''a.jpg'', True)
     \<in> set (new_events (example_world [(''photos'', True, [])] (\<lambda>k. k = 6))
         (process_object ''photos'' ''a.jpg'' (example_world [(''photos'', True, [])] (\<lambda>k. k = 6))))
   \<and> object_bytes (new_project
         (process_object ''photos'' ''a.jpg'' (example_world [(''photos'', True, [])] (\<lambda>k. k = 6))))
         ''photos'' ''a.jpg'' = Some [1, 2, 3]
   \<and> files (process_object ''photos'' ''a.jpg'' (example_world [(''photos'', True, [])] (\<lambda>k. k = 6)))
         ''a.jpg'' = Some [1, 2, 3]"
  by (simp add: run_defs prim_defs update_conv')

text \<open>
  Claim C5, as amended. For every object \<open>n\<close> of bucket \<open>b\<close> whose download (the download
  call and the write of the local file) and upload both succeed in its iteration of the
  object loop, afterwards the destination bucket \<open>b\<close> holds an object \<open>n\<close> with exactly the
  bytes the source holds for it. The removal of the local file is then attempted: if it
  succeeds no local file \<open>n\<close> is left, and if it raises the file stays, holding those
  bytes.
\<close>

theorem successful_transfer_copies_bytes:
  assumes "(Download Old b n, True) \<in> set (new_events w (process_object b n w))"
    and "(WriteFile n, True) \<in> set (new_events w (process_object b n w))"
    and "(Upload New b n n, True) \<in> set (new_events w (process_object b n w))"
  shows "\<exists>bs. object_bytes (old_project w) b n = Some bs
            \<and> object_bytes (new_project (process_object b n w)) b n = Some bs
            \<and> (((RemoveFile n, True) \<in> set (new_events w (process_object b n w))
                  \<and> files (process_object b n w) n = None)
               \<or> ((RemoveFile n, False) \<in> set (new_events w (process_object b n w))
                  \<and> files (process_object b n w) n = Some bs))"
proof -
  define w1 where "w1 = download_block b n (print n w)"
  define w2 where "w2 = upload_block b n w1"
  note s = process_object_split [OF w1_def w2_def]
  have ev: "(WriteFile n, True) \<in> set (drop (length (trace w)) (trace w2))"
    "(Upload New b n n, True) \<in> set (drop (length (trace w)) (trace w2))"
    using assms unfolding s(1) new_events_def by simp_all
  show ?thesis
    unfolding s(1) new_events_def
    using download_block_cases [OF w1_def] upload_block_cases [OF w2_def] s(2-) ev
    by (elim conjE disjE exE) simp_all
qed

theorem successful_transfer_copies_bytes_witness:
  "(Download Old ''photos'' ''a.jpg'', True)
     \<in> set (new_events (example_world [(''photos'', True, [])] (\<lambda>k. False))
         (process_object ''photos'' ''a.jpg'' (example_world [(''photos'', True, [])] (\<lambda>k. False))))
   \<and> (WriteFile ''a.jpg'', True)
     \<in> set (new_events (example_world [(''photos'', True, [])] (\<lambda>k. False))
         (process_object ''photos'' ''a.jpg'' (example_world [(''photos'', True, [])] (\<lambda>k. False))))
   \<and> (Upload New ''photos'' ''a.jpg'' ''a.jpg'', True)
     \<in> set (new_events (example_world [(''photos'', True, [])] (\<lambda>k. False))
         (process_object ''photos'' ''a.jpg'' (example_world [(''photos'', True, [])] (\<lambda>k. False))))
   \<and> object_bytes (new_project
         (process_object ''photos'' ''a.jpg'' (example_world [(''photos'', True, [])] (\<lambda>k. False))))
         ''photos'' ''a.jpg'' = Some [1, 2, 3]
   \<and> files (process_object ''photos'' ''a.jpg'' (example_world [(''photos'', True, [])] (\<lambda>k. False)))
         ''a.jpg'' = None"
proof -
  let ?w = "example_world [(''photos'', True, [])] (\<lambda>k. False)"
  have d: "(Download Old ''photos'' ''a.jpg'', True)
      \<in> set (new_events ?w (process_object ''photos'' ''a.jpg'' ?w))"
    by (simp add: run_defs prim_defs)
  have f: "(WriteFile ''a.jpg'', True)
      \<in> set (new_events ?w (process_object ''photos'' ''a.jpg'' ?w))"
    by (simp add: run_defs prim_defs)
  have u: "(Upload New ''photos'' ''a.jpg'' ''a.jpg'', True)
      \<in> set (new_events ?w (process_object ''photos'' ''a.jpg'' ?w))"
    by (simp add: run_defs prim_defs)
  have nrm: "(RemoveFile ''a.jpg'', False)
      \<notin> set (new_events ?w (process_object ''photos'' ''a.jpg'' ?w))"
    by (simp add: run_defs prim_defs)
  have src: "object_bytes (old_project ?w) ''photos'' ''a.jpg'' = Some [1, 2, 3]"
    by (simp add: run_defs)
  show ?thesis
    using successful_transfer_copies_bytes [OF d f u] d f u nrm src by auto
qed

text \<open>
  Claim C9 as stated fails: the file is opened, the download raises, the upload of the
  empty file returns, the removal raises, and the empty local file is still there.
\<close>

theorem empty_file_kept_after_upload_counterexample:
  "(OpenWrite ''a.jpg'', True)
     \<in> set (new_events (example_world [(''photos'', True, [])] (\<lambda>k. k = 1 \<or> k = 5))
         (process_object ''photos'' ''a.jpg''
            (example_world [(''photos'', True, [])] (\<lambda>k. k = 1 \<or> k = 5))))
   \<and> (Download Old ''photos'' ''a.jpg'', False)
     \<in> set (new_events (example_world [(''photos'', True, [])] (\<lambda>k. k = 1 \<or> k = 5))
         (process_object ''photos'' ''a.jpg''
            (example_world [(''photos'', True, [])] (\<lambda>k. k = 1 \<or> k = 5))))
   \<and> (Upload New ''photos'' ''a.jpg'' ''a.jpg'', True)
     \<in> set (new_events (example_world [(''photos'', True, [])] (\<lambda>k. k = 1 \<or> k = 5))
         (process_object ''photos'' ''a.jpg''
            (example_world [(''photos'', True, [])] (\<lambda>k. k = 1 \<or> k = 5))))
   \<and> files (process_object ''photos'' ''a.jpg''
         (example_world [(''photos'', True, [])] (\<lambda>k. k = 1 \<or> k = 5))) ''a.jpg'' = Some []"
  by (simp add: run_defs prim_defs)

text \<open>
  Claim C9, as amended. When the local file \<open>n\<close> was opened for writing and the download
  call then raises, the file exists and is empty after the download block, the upload
  block runs all the same (the file is opened for reading and, when that succeeds, the
  upload call is made), and if the upload returns normally the destination bucket gains
  an object \<open>n\<close> with empty content. The removal of the local file is then attempted: if
  it succeeds the file is gone, and if it raises the empty file stays.
\<close>

theorem failed_download_uploads_empty_file:
  assumes "(OpenWrite n, True) \<in> set (new_events w (process_object b n w))"
    and "(Download Old b n, False) \<in> set (new_events w (process_object b n w))"
  shows "files (download_block b n (print n w)) n = Some []
     \<and> ((OpenRead n, True) \<in> set (new_events (download_block b n (print n w)) (process_object b n w))
        \<or> (OpenRead n, False) \<in> set (new_events (download_block b n (print n w)) (process_object b n w)))
     \<and> ((OpenRead n, True) \<in> set (new_events w (process_object b n w)) \<longrightarrow>
          (Upload New b n n, True) \<in> set (new_events w (process_object b n w))
          \<or> (Upload New b n n, False) \<in> set (new_events w (process_object b n w)))
     \<and> ((Upload New b n n, True) \<in> set (new_events w (process_object b n w)) \<longrightarrow>
          object_bytes (new_project (process_object b n w)) b n = Some []
          \<and> (((RemoveFile n, True) \<in> set (new_events w (process_object b n w))
                \<and> files (process_object b n w) n = None)
             \<or> ((RemoveFile n, False) \<in> set (new_events w (process_object b n w))
                \<and> files (process_object b n w) n = Some [])))"
proof -
  define w1 where "w1 = download_block b n (print n w)"
  define w2 where "w2 = upload_block b n w1"
  note s = process_object_split [OF w1_def w2_def]
  have ev: "(OpenWrite n, True) \<in> set (drop (length (trace w)) (trace w2))"
    "(Download Old b n, False) \<in> set (drop (length (trace w)) (trace w2))"
    using assms unfolding s(1) new_events_def by simp_all
  show ?thesis
    unfolding s(1) new_events_def w1_def [symmetric]
    using download_block_cases [OF w1_def] upload_block_cases [OF w2_def] s(2-) ev
    by (elim conjE disjE exE) simp_all
qed

theorem failed_download_uploads_empty_file_witness:
  "(OpenWrite ''a.jpg'', True)
     \<in> set (new_events (example_world [(''photos'', True, [])] (\<lambda>k. k = 1))
         (process_object ''photos'' ''a.jpg'' (example_world [(''photos'', True, [])] (\<lambda>k. k = 1))))
   \<and> (Download Old ''photos'' ''a.jpg'', False)
     \<in> set (new_events (example_world [(''photos'', True, [])] (\<lambda>k. k = 1))
         (process_object ''photos'' ''a.jpg'' (example_world [(''photos'', True, [])] (\<lambda>k. k = 1))))
   \<and> (OpenRead ''a.jpg'', True)
     \<in> set (new_events (example_world [(''photos'', True, [])] (\<lambda>k. k = 1))
         (process_object ''photos'' ''a.jpg'' (example_world [(''photos'', True, [])] (\<lambda>k. k = 1))))
   \<and> (Upload New ''photos'' ''a.jpg'' ''a.jpg'', True)
     \<in> set (new_events (example_world [(''photos'', True, [])] (\<lambda>k. k = 1))
         (process_object ''photos'' ''a.jpg'' (example_world [(''photos'', True, [])] (\<lambda>k. k = 1))))
   \<and> files (download_block ''photos'' ''a.jpg''
         (print ''a.jpg'' (example_world [(''photos'', True, [])] (\<lambda>k. k = 1)))) ''a.jpg'' = Some []
   \<and> object_bytes (new_project
         (process_object ''photos'' ''a.jpg'' (example_world [(''photos'', True, [])] (\<lambda>k. k = 1))))
         ''photos'' ''a.jpg'' = Some []
   \<and> files (process_object ''photos'' ''a.jpg'' (example_world [(''photos'', True, [])] (\<lambda>k. k = 1)))
         ''a.jpg'' = None"
proof -
  let ?w = "example_world [(''photos'', True, [])] (\<lambda>k. k = 1)"
  have o: "(OpenWrite ''a.jpg'', True)
      \<in> set (new_events ?w (process_object ''photos'' ''a.jpg'' ?w))"
    by (simp add: run_defs prim_defs)
  have d: "(Download Old ''photos'' ''a.jpg'', False)
      \<in> set (new_events ?w (process_object ''photos'' ''a.jpg'' ?w))"
    by (simp add: run_defs prim_defs)
  have r: "(OpenRead ''a.jpg'', True)
      \<in> set (new_events ?w (process_object ''photos'' ''a.jpg'' ?w))"
    by (simp add: run_defs prim_defs)
  have u: "(Upload New ''photos'' ''a.jpg'' ''a.jpg'', True)
      \<in> set (new_events ?w (process_object ''photos'' ''a.jpg'' ?w))"
    by (simp add: run_defs prim_defs)
  have nrm: "(RemoveFile ''a.jpg'', False)
      \<notin> set (new_events ?w (process_object ''photos'' ''a.jpg'' ?w))"
    by (simp add: run_defs prim_defs)
  show ?thesis
    using failed_download_uploads_empty_file [OF o d] o d r u nrm by blast
qed

text \<open>
  Claim C1 as stated fails: with the download call failing and the upload call failing
  too, the upload was attempted and the empty local file is left behind.
\<close>

theorem failed_download_counterexample:
  "fst (download_try ''photos'' ''a.jpg''
         (print ''a.jpg'' (example_world [(''photos'', True, [])] (\<lambda>k. k = 1 \<or> k = 3))))
     = Inl (StorageException ''request failed'')
   \<and> (Upload New ''photos'' ''a.jpg'' ''a.jpg'', False)
     \<in> set (new_events (example_world [(''photos'', True, [])] (\<lambda>k. k = 1 \<or> k = 3))
         (process_object ''photos'' ''a.jpg''
            (example_world [(''photos'', True, [])] (\<lambda>k. k = 1 \<or> k = 3))))
   \<and> files (process_object ''photos'' ''a.jpg''
         (example_world [(''photos'', True, [])] (\<lambda>k. k = 1 \<or> k = 3))) ''a.jpg'' = Some []"
  by (simp add: run_defs prim_defs)

text \<open>
  Claim C1, as amended. When the download block of object \<open>n\<close> fails, the exception is
  caught and reported as \<^verbatim>\<open>error downloading\<close>, and control continues with the upload
  block of the same object: the local file is opened for reading and, when that
  succeeds, an upload call for \<open>n\<close> is made. A file that had been opened for writing
  before the failure is still there when the upload block starts.
\<close>

theorem failed_download_still_runs_upload_block:
  assumes "fst (download_try b n (print n w)) = Inl e"
  shows "''error downloading '' @ str e \<in> set (new_output w (process_object b n w))
     \<and> ((OpenRead n, True) \<in> set (new_events (download_block b n (print n w)) (process_object b n w))
        \<or> (OpenRead n, False) \<in> set (new_events (download_block b n (print n w)) (process_object b n w)))
     \<and> ((OpenRead n, True) \<in> set (new_events w (process_object b n w)) \<longrightarrow>
          (Upload New b n n, True) \<in> set (new_events w (process_object b n w))
          \<or> (Upload New b n n, False) \<in> set (new_events w (process_object b n w)))
     \<and> ((OpenWrite n, True) \<in> set (new_events w (process_object b n w)) \<longrightarrow>
          files (download_block b n (print n w)) n \<noteq> None)"
proof -
  define w1 where "w1 = download_block b n (print n w)"
  define w2 where "w2 = upload_block b n w1"
  note s = process_object_split [OF w1_def w2_def]
  show ?thesis
    unfolding s(1) new_events_def new_output_def w1_def [symmetric]
    using download_block_cases [OF w1_def] upload_block_cases [OF w2_def] s(2-) assms
    by (elim conjE disjE exE) simp_all
qed

theorem failed_download_still_runs_upload_block_witness:
  "fst (download_try ''photos'' ''a.jpg''
         (print ''a.jpg'' (example_world [(''photos'', True, [])] (\<lambda>k. k = 1 \<or> k = 3))))
     = Inl (StorageException ''request failed'')
   \<and> (OpenWrite ''a.jpg'', True)
     \<in> set (new_events (example_world [(''photos'', True, [])] (\<lambda>k. k = 1 \<or> k = 3))
         (process_object ''photos'' ''a.jpg''
            (example_world [(''photos'', True, [])] (\<lambda>k. k = 1 \<or> k = 3))))
   \<and> (OpenRead ''a.jpg'', True)
     \<in> set (new_events (example_world [(''photos'', True, [])] (\<lambda>k. k = 1 \<or> k = 3))
         (process_object ''photos'' ''a.jpg''
            (example_world [(''photos'', True, [])] (\<lambda>k. k = 1 \<or> k = 3))))
   \<and> ''error downloading request failed''
     \<in> set (new_output (example_world [(''photos'', True, [])] (\<lambda>k. k = 1 \<or> k = 3))
         (process_object ''photos'' ''a.jpg''
            (example_world [(''photos'', True, [])] (\<lambda>k. k = 1 \<or> k = 3))))
   \<and> files (download_block ''photos'' ''a.jpg''
         (print ''a.jpg'' (example_world [(''photos'', True, [])] (\<lambda>k. k = 1 \<or> k = 3))))
         ''a.jpg'' \<noteq> None"
proof -
  let ?w = "example_world [(''photos'', True, [])] (\<lambda>k. k = 1 \<or> k = 3)"
  have h: "fst (download_try ''photos'' ''a.jpg'' (print ''a.jpg'' ?w))
      = Inl (StorageException ''request failed'')"
    by (simp add: run_defs prim_defs)
  have o: "(OpenWrite ''a.jpg'', True)
      \<in> set (new_events ?w (process_object ''photos'' ''a.jpg'' ?w))"
    by (simp add: run_defs prim_defs)
  have r: "(OpenRead ''a.jpg'', True)
      \<in> set (new_events ?w (process_object ''photos'' ''a.jpg'' ?w))"
    by (simp add: run_defs prim_defs)
  show ?thesis
    using failed_download_still_runs_upload_block [OF h] h o r by simp
qed

section \<open>The prologue and the whole run\<close>

lemmas prologue_defs = prologue_def bind_io_def import_from_def import_os_def
  call_load_dotenv_def lookup_name_def assign_getenv_def assign_str_def
  assign_create_client_def return_io_def returned_def log_call_def

lemma prologue_unbound_os:
  assumes "g ''os'' = None"
  shows "prologue g w = (Inl (NameError ''os''), w\<lparr>environ := dotenv_file w ++ environ w\<rparr>)"
  using assms by (simp add: prologue_defs)

lemma prologue_other_os:
  assumes "g ''os'' = Some v" and "v \<noteq> PyModule ''os''"
  shows "prologue g w = (Inl (AttributeError ''getenv''), w\<lparr>environ := dotenv_file w ++ environ w\<rparr>)"
  using assms by (simp add: prologue_defs)

lemma prologue_bound_os:
  assumes "g ''os'' = Some (PyModule ''os'')"
  shows "\<exists>g'. prologue g w =
     (Inr g', w\<lparr>environ := dotenv_file w ++ environ w,
                trace := trace w @
                  [(CreateClient (PyStr ''https://foodshare_project_ref.supabase.co'')
                      (PyStr ''foodshare_service_key''), True),
                   (CreateClient (PyStr ''https://postgres_project_ref.supabase.co'')
                      (PyStr ''postgres_service_key''), True)]\<rparr>)"
  using assms by (simp add: prologue_defs)



lemma migrate_call_reads_source: "migrate_call c \<Longrightarrow> \<not> writes_to Old c"
  by (cases c) auto

lemma script_unbound_os:
  assumes "g ''os'' = None"
  shows "script g w = (Inl (NameError ''os''), w\<lparr>environ := dotenv_file w ++ environ w\<rparr>)"
  using prologue_unbound_os [of g w] assms by (simp add: script_def bind_io_def)


lemmas loop_defs = migrate_def process_bucket_def

section \<open>The claims about the run\<close>

text \<open>
  Claim C4. Every run of the script ends at line 6 with a \<^verbatim>\<open>NameError\<close> for \<^verbatim>\<open>os\<close>: the
  name is used before line 20 binds it. No client is constructed, no storage or file
  call is made, and the projects, the working directory and the output are as before.
\<close>

theorem main_raises_name_error:
  "fst (main w) = Inl (NameError ''os'')
   \<and> new_events w (snd (main w)) = []
   \<and> client_args (trace (snd (main w))) = client_args (trace w)
   \<and> old_project (snd (main w)) = old_project w
   \<and> new_project (snd (main w)) = new_project w
   \<and> files (snd (main w)) = files w
   \<and> stdout (snd (main w)) = stdout w"
proof -
  have "initial_globals ''os'' = None"
    by (simp add: initial_globals_def)
  then have "main w = (Inl (NameError ''os''), w\<lparr>environ := dotenv_file w ++ environ w\<rparr>)"
    unfolding main_def using script_unbound_os [of initial_globals w] by simp
  then show ?thesis
    by (simp add: new_events_def)
qed



text \<open>
  Claim C7 as stated fails: the first two calls of a bucket's iteration are the listing
  and then the creation, and after a failed listing no creation is attempted.
\<close>

theorem bucket_created_before_listing_counterexample:
  "take 2 (new_events (example_world [] (\<lambda>k. False))
      (snd (process_bucket (''photos'', True) (example_world [] (\<lambda>k. False))))) =
     [(ListObjects Old ''photos'', True), (CreateBucket New ''photos'' True, True)]
   \<and> new_events (example_world [] (\<lambda>k. k = 0))
      (snd (process_bucket (''photos'', True) (example_world [] (\<lambda>k. k = 0)))) =
     [(ListObjects Old ''photos'', False)]"
  by (simp add: loop_defs run_defs prim_defs)

text \<open>
  Claim C7, as amended. For every source bucket the objects are listed from the source
  first. If the listing fails, the iteration ends there without any attempt to create
  the bucket; otherwise the creation attempt is the next call, followed by the calls
  of the object loop only.
\<close>

theorem objects_listed_before_bucket_created:
  "((\<exists>e. fst (process_bucket (b, p) w) = Inl e)
      \<and> new_events w (snd (process_bucket (b, p) w)) = [(ListObjects Old b, False)])
   \<or> (fst (process_bucket (b, p) w) = Inr ()
      \<and> (\<exists>ok evs. new_events w (snd (process_bucket (b, p) w)) =
             (ListObjects Old b, True) # (CreateBucket New b p, ok) # evs
           \<and> list_all (\<lambda>ev. object_call (fst ev)) evs))"
proof -
  obtain r w' where m: "process_bucket (b, p) w = (r, w')"
    by (cases "process_bucket (b, p) w")
  from process_bucket_cases [OF m] show ?thesis
    unfolding m new_events_def by (elim conjE disjE exE) simp_all
qed

text \<open>
  Claim C8. In the migration loop a failed \<^verbatim>\<open>list_buckets\<close> or a failed listing of a
  bucket's objects is not caught: the loop ends with that exception and the failed call
  is the last call made. These are the only exceptions that leave the loop.
\<close>

theorem listing_failures_propagate:
  "((ListBuckets Old, False) \<in> set (new_events w (snd (migrate w))) \<longrightarrow>
      (\<exists>e. fst (migrate w) = Inl e)
      \<and> new_events w (snd (migrate w)) = [(ListBuckets Old, False)])
   \<and> ((ListObjects Old b, False) \<in> set (new_events w (snd (migrate w))) \<longrightarrow>
      (\<exists>e. fst (migrate w) = Inl e)
      \<and> last (new_events w (snd (migrate w))) = (ListObjects Old b, False))
   \<and> ((\<exists>e. fst (migrate w) = Inl e) \<longrightarrow>
      new_events w (snd (migrate w)) \<noteq> []
      \<and> failed_listing (last (new_events w (snd (migrate w)))))"
proof -
  obtain r w' where m: "migrate w = (r, w')"
    by (cases "migrate w")
  from migrate_shape [OF m] obtain evs where e: "trace w' = trace w @ evs"
    and c: "(r = Inr () \<and> list_all (\<lambda>ev. \<not> failed_listing ev) evs)
               \<or> (\<exists>e. r = Inl e \<and> evs = [(ListBuckets Old, False)])
               \<or> (\<exists>e evs0 b. r = Inl e \<and> evs = evs0 @ [(ListObjects Old b, False)]
                     \<and> list_all (\<lambda>ev. \<not> failed_listing ev) evs0)"
    by blast
  have n: "new_events w (snd (migrate w)) = evs" "fst (migrate w) = r"
    using m e by (simp_all add: new_events_def)
  from c show ?thesis
  proof (elim disjE exE conjE)
    assume "r = Inr ()" "list_all (\<lambda>ev. \<not> failed_listing ev) evs"
    then show ?thesis unfolding n by (auto simp: list_all_iff)
  next
    fix e assume "r = Inl e" "evs = [(ListBuckets Old, False)]"
    then show ?thesis unfolding n by simp
  next
    fix e evs0 b' assume "r = Inl e" "evs = evs0 @ [(ListObjects Old b', False)]"
      "list_all (\<lambda>ev. \<not> failed_listing ev) evs0"
    then show ?thesis unfolding n by (auto simp: list_all_iff)
  qed
qed

theorem listing_failures_propagate_witness:
  "(ListBuckets Old, False)
      \<in> set (new_events (example_world [] (\<lambda>k. k = 0)) (snd (migrate (example_world [] (\<lambda>k. k = 0)))))
   \<and> new_events (example_world [] (\<lambda>k. k = 0)) (snd (migrate (example_world [] (\<lambda>k. k = 0))))
       = [(ListBuckets Old, False)]
   \<and> (ListObjects Old ''photos'', False)
      \<in> set (new_events (example_world [] (\<lambda>k. k = 1)) (snd (migrate (example_world [] (\<lambda>k. k = 1)))))
   \<and> fst (migrate (example_world [] (\<lambda>k. k = 1))) = Inl (StorageException ''request failed'')
   \<and> last (new_events (example_world [] (\<lambda>k. k = 1)) (snd (migrate (example_world [] (\<lambda>k. k = 1)))))
       = (ListObjects Old ''photos'', False)
   \<and> failed_listing
        (last (new_events (example_world [] (\<lambda>k. k = 1)) (snd (migrate (example_world [] (\<lambda>k. k = 1))))))"
proof -
  have a: "(ListBuckets Old, False)
      \<in> set (new_events (example_world [] (\<lambda>k. k = 0)) (snd (migrate (example_world [] (\<lambda>k. k = 0)))))"
    by (simp add: loop_defs run_defs prim_defs)
  have b: "(ListObjects Old ''photos'', False)
      \<in> set (new_events (example_world [] (\<lambda>k. k = 1)) (snd (migrate (example_world [] (\<lambda>k. k = 1)))))"
    by (simp add: loop_defs run_defs prim_defs)
  have c: "fst (migrate (example_world [] (\<lambda>k. k = 1))) = Inl (StorageException ''request failed'')"
    by (simp add: loop_defs run_defs prim_defs)
  show ?thesis
    using a b c
      listing_failures_propagate [of "example_world [] (\<lambda>k. k = 0)" "''photos''"]
      listing_failures_propagate [of "example_world [] (\<lambda>k. k = 1)" "''photos''"]
    by simp
qed

lemma script_reads_source:
  "old_project (snd (script g w)) = old_project w
   \<and> list_all (\<lambda>ev. \<not> writes_to Old (fst ev)) (new_events w (snd (script g w)))"
proof -
  consider (none) "g ''os'' = None"
    | (other) v where "g ''os'' = Some v" "v \<noteq> PyModule ''os''"
    | (bound) "g ''os'' = Some (PyModule ''os'')"
    by (cases "g ''os''") auto
  then show ?thesis
  proof cases
    case none
    then show ?thesis
      using prologue_unbound_os [of g w]
      by (simp add: script_def bind_io_def new_events_def)
  next
    case other
    then show ?thesis
      using prologue_other_os [of g v w]
      by (simp add: script_def bind_io_def new_events_def)
  next
    case bound
    from prologue_bound_os [of g w] bound obtain g' w1 where
      p: "prologue g w = (Inr g', w1)"
      and t1: "trace w1 = trace w @
         [(CreateClient (PyStr ''https://foodshare_project_ref.supabase.co'')
             (PyStr ''foodshare_service_key''), True),
          (CreateClient (PyStr ''https://postgres_project_ref.supabase.co'')
             (PyStr ''postgres_service_key''), True)]"
      and o1: "old_project w1 = old_project w"
      by auto
    obtain r w2 where m: "migrate w1 = (r, w2)"
      by (cases "migrate w1")
    from migrate_shape [OF m] obtain evs where
      e: "trace w2 = trace w1 @ evs" "list_all (\<lambda>ev. migrate_call (fst ev)) evs"
        "old_project w2 = old_project w1"
      by blast
    have "list_all (\<lambda>ev. \<not> writes_to Old (fst ev)) evs"
      using e(2) by (simp add: list_all_iff migrate_call_reads_source)
    moreover have "script g w = (r, w2)"
      using p m by (simp add: script_def bind_io_def)
    ultimately show ?thesis
      using e t1 o1 by (simp add: new_events_def)
  qed
qed

text \<open>
  Claim C10. Neither the migration loop nor the script as a whole, from any initial
  namespace, ever creates a bucket in the source project or uploads to it: through the
  old client it only lists and downloads, and the source project is the same after the
  run.
\<close>

theorem source_project_only_read:
  "old_project (snd (migrate w)) = old_project w
   \<and> list_all (\<lambda>ev. \<not> writes_to Old (fst ev)) (new_events w (snd (migrate w)))
   \<and> old_project (snd (script g w)) = old_project w
   \<and> list_all (\<lambda>ev. \<not> writes_to Old (fst ev)) (new_events w (snd (script g w)))"
proof -
  obtain r w' where m: "migrate w = (r, w')"
    by (cases "migrate w")
  from migrate_shape [OF m] obtain evs where e: "trace w' = trace w @ evs"
    "list_all (\<lambda>ev. migrate_call (fst ev)) evs" "old_project w' = old_project w"
    by blast
  have "list_all (\<lambda>ev. \<not> writes_to Old (fst ev)) evs"
    using e(2) by (simp add: list_all_iff migrate_call_reads_source)
  then show ?thesis
    using m e script_reads_source [of g w] by (simp add: new_events_def)
qed

theorem source_project_only_read_witness:
  "old_project (snd (migrate (example_world [] (\<lambda>k. False)))) = photos
   \<and> (Download Old ''photos'' ''b.jpg'', True)
       \<in> set (new_events (example_world [] (\<lambda>k. False)) (snd (migrate (example_world [] (\<lambda>k. False)))))
   \<and> list_all (\<lambda>ev. \<not> writes_to Old (fst ev))
       (new_events (example_world [] (\<lambda>k. False)) (snd (migrate (example_world [] (\<lambda>k. False)))))
   \<and> list_all (\<lambda>ev. \<not> writes_to Old (fst ev))
       (new_events (example_world [] (\<lambda>k. False))
          (snd (script (initial_globals(''os'' \<mapsto> PyModule ''os'')) (example_world [] (\<lambda>k. False)))))"
proof -
  have a: "(Download Old ''photos'' ''b.jpg'', True)
       \<in> set (new_events (example_world [] (\<lambda>k. False)) (snd (migrate (example_world [] (\<lambda>k. False)))))"
    by (simp add: loop_defs run_defs prim_defs)
  have b: "old_project (example_world [] (\<lambda>k. False)) = photos"
    by (simp add: example_world_def)
  show ?thesis
    using a b
      source_project_only_read
        [of "example_world [] (\<lambda>k. False)" "initial_globals(''os'' \<mapsto> PyModule ''os'')"]
    by simp
qed

section \<open>A bucket that exists already\<close>








end
